theory Spec2Isabelle
  imports Complex_Main
begin

section \<open>Library data read by robot\_state.cpp\<close>

text \<open>
  The file under verification is \<^verbatim>\<open>src/robot_state.cpp\<close> (class \<^verbatim>\<open>RobotState\<close>).
  It is written against three libraries whose sources are not part of the repository:
  KDL (kinematic tree, chain, frames, forward-kinematics solvers), urdf (links, joints,
  geometry) and Eigen (dense vectors). Their data is modelled as far as the file reads it;
  their functions (the two solvers, frame multiplication, the frame conversion) are taken
  as parameters.

  A \<^verbatim>\<open>double\<close> is only ever copied by this file, never computed with, so it is
  modelled as a \<^typ>\<open>real\<close>. Container sizes and indices are natural numbers; the
  \<^verbatim>\<open>int\<close> returned by \<^verbatim>\<open>GetJointIndex\<close> is an \<^typ>\<open>int\<close> (vectors of
  \<open>2^31\<close> or more elements are not considered).
\<close>

datatype kdl_joint_type =
  RotAxis | RotX | RotY | RotZ | TransAxis | TransX | TransY | TransZ | JointNone

record kdl_joint =
  kj_name :: string
  kj_type :: kdl_joint_type

record kdl_segment =
  seg_name :: string
  seg_joint :: kdl_joint

text \<open>\<^verbatim>\<open>KDL::TreeElement\<close>: the file reads \<^verbatim>\<open>segment\<close> and \<^verbatim>\<open>q_nr\<close>.\<close>

record tree_element =
  segment :: kdl_segment
  q_nr :: nat

text \<open>
  \<^verbatim>\<open>KDL::Tree\<close>: \<^verbatim>\<open>getSegments()\<close> is a \<^verbatim>\<open>std::map\<close> from segment name to
  tree element, iterated in key order (an association list here), and
  \<^verbatim>\<open>getNrOfJoints()\<close> is a counter kept by the library.
\<close>

record kdl_tree =
  getSegments :: "(string \<times> tree_element) list"
  tree_NrOfJoints :: nat

text \<open>\<^verbatim>\<open>KDL::Chain\<close>: its segments in order, and the library's joint counter.\<close>

record kdl_chain =
  chain_segments :: "kdl_segment list"
  chain_NrOfJoints :: nat

datatype urdf_joint_type =
  UNKNOWN | REVOLUTE | CONTINUOUS | PRISMATIC | FLOATING | PLANAR | FIXED

record joint_limits =
  lower :: real
  upper :: real

text \<open>\<^verbatim>\<open>urdf::Joint\<close>; \<^verbatim>\<open>limits\<close> is a shared pointer, null when the joint has none.\<close>

record urdf_joint =
  uj_name :: string
  uj_type :: urdf_joint_type
  limits :: "joint_limits option"

text \<open>
  \<^verbatim>\<open>urdf::Geometry\<close> with its \<^verbatim>\<open>type\<close> tag; only a mesh carries a file name.
\<close>

datatype geometry = SPHERE | BOX | CYLINDER | MESH string

record urdf_visual =
  geom :: "geometry option"

text \<open>
  \<^verbatim>\<open>urdf::Link\<close>. Links are heap objects held by shared pointers; a pointer is an
  address (a natural number), a null pointer is \<^term>\<open>None\<close>. \<^verbatim>\<open>getParent()\<close>
  returns the parent pointer, null for a link without parent.
\<close>

type_synonym link_ptr = nat

record urdf_link =
  link_name :: string
  visual :: "urdf_visual option"
  getParent :: "link_ptr option"

text \<open>
  \<^verbatim>\<open>urdf::Model\<close>: the link objects, the vector \<^verbatim>\<open>getLinks\<close> fills, the root
  pointer and the joint lookup by name (null when there is no such joint).
\<close>

record urdf_model =
  link_at :: "link_ptr \<Rightarrow> urdf_link"
  getLinks :: "link_ptr list"
  getRoot :: "link_ptr option"
  getJoint :: "string \<Rightarrow> urdf_joint option"

text \<open>\<^verbatim>\<open>sensor_msgs::JointState\<close>: two parallel arrays.\<close>

record joint_state =
  js_name :: "string list"
  js_position :: "real list"

text \<open>
  The library functions on frames: \<^verbatim>\<open>KDL::Frame()\<close>, \<^verbatim>\<open>operator*\<close> and
  \<^verbatim>\<open>tf::transformKDLToEigen\<close>. The frame type \<open>'f\<close> and the Eigen transform type
  \<open>'e\<close> are left open.
\<close>

record ('f, 'e) kdl_lib =
  frame_default :: 'f
  frame_mul :: "'f \<Rightarrow> 'f \<Rightarrow> 'f"
  transformKDLToEigen :: "'f \<Rightarrow> 'e"

section \<open>Effects: messages and undefined behaviour\<close>

text \<open>What the file prints: its \<^verbatim>\<open>ROS_ERROR\<close>, \<^verbatim>\<open>ROS_INFO\<close> and \<^verbatim>\<open>std::cout\<close> lines.\<close>

datatype log_entry =
  ErrNoJointIndex nat string
| ErrJointNotInJointState
| ErrChainSolver
| ErrTreeSolver string
| ErrNoChain
| InfoChainCreated
| CoutDescendant string string

text \<open>
  Where the C++ dereferences a null pointer, indexes a vector outside its size or lets
  \<^verbatim>\<open>std::string::substr\<close> throw, the model stops with a fault.
\<close>

datatype fault =
  NullDeref
| IndexOutOfRange nat nat
| SubstrOutOfRange

section \<open>The object state\<close>

text \<open>
  A solver object is a function from the joint array and the initial contents of its
  output frame to the returned status and the final contents of the output frame.
\<close>

record 'f robot_state =
  urdf :: urdf_model
  kin_tree :: kdl_tree
  segment_map :: "(string \<times> tree_element) list"
  joint_map :: "string list"
  lower_limit :: "real list"
  upper_limit :: "real list"
  base_2_cam :: kdl_chain
  chain_solver :: "real list \<Rightarrow> 'f \<Rightarrow> int \<times> 'f"
  tree_solver :: "real list \<Rightarrow> 'f \<Rightarrow> string \<Rightarrow> int \<times> 'f"
  part_mesh_map :: "string list"
  jnt_array :: "real list"
  cam_frame :: 'f
  frame_map :: "string \<rightharpoonup> 'f"
  ros_log :: "log_entry list"

text \<open>\<^verbatim>\<open>std::find(v.begin(), v.end(), x) - v.begin()\<close>: the first position of \<open>x\<close>, the size when absent.\<close>

fun std_find :: "'a list \<Rightarrow> 'a \<Rightarrow> nat" where
  "std_find [] x = 0"
| "std_find (y # ys) x = (if y = x then 0 else Suc (std_find ys x))"

section \<open>The constructor: building the joint index\<close>

text \<open>
  Lines 60 to 86. For each segment of the tree whose KDL joint is not \<^verbatim>\<open>None\<close> the
  urdf joint is looked up by name. A null result reaches \<^verbatim>\<open>joint->name\<close> inside the
  \<^verbatim>\<open>ROS_FATAL\<close> call, a null dereference. A joint that is neither \<^verbatim>\<open>UNKNOWN\<close>
  nor \<^verbatim>\<open>FIXED\<close> is written at position \<^verbatim>\<open>q_nr\<close> of the three vectors.
\<close>

definition joint_index_step ::
  "tree_element \<Rightarrow> 'f robot_state \<Rightarrow> fault + 'f robot_state" where
  "joint_index_step e s =
     (if kj_type (seg_joint (segment e)) \<noteq> JointNone then
        (case getJoint (urdf s) (kj_name (seg_joint (segment e))) of
           None \<Rightarrow> Inl NullDeref
         | Some joint \<Rightarrow>
             if uj_type joint \<noteq> UNKNOWN \<and> uj_type joint \<noteq> FIXED then
               if \<not> q_nr e < length (joint_map s) then
                 Inl (IndexOutOfRange (q_nr e) (length (joint_map s)))
               else (case limits joint of
                  None \<Rightarrow> Inl NullDeref
                | Some jl \<Rightarrow>
                    if \<not> q_nr e < length (lower_limit s) then
                      Inl (IndexOutOfRange (q_nr e) (length (lower_limit s)))
                    else if \<not> q_nr e < length (upper_limit s) then
                      Inl (IndexOutOfRange (q_nr e) (length (upper_limit s)))
                    else Inr (s\<lparr>joint_map := (joint_map s)[q_nr e := uj_name joint],
                               lower_limit := (lower_limit s)[q_nr e := lower jl],
                               upper_limit := (upper_limit s)[q_nr e := upper jl]\<rparr>))
             else Inr s)
      else Inr s)"

fun joint_index_loop ::
  "(string \<times> tree_element) list \<Rightarrow> 'f robot_state \<Rightarrow> fault + 'f robot_state" where
  "joint_index_loop [] s = Inr s"
| "joint_index_loop (seg_it # rest) s =
     (case joint_index_step (snd seg_it) s of
        Inl f \<Rightarrow> Inl f
      | Inr s' \<Rightarrow> joint_index_loop rest s')"

text \<open>
  The constructor after the tree has been built. Its inputs are what the libraries hand
  over: the urdf model, the tree, the result of \<^verbatim>\<open>getChain(cam_frame, base_frame, _)\<close>
  (success flag and chain) and the two solver objects built from chain and tree.
  \<^verbatim>\<open>resize\<close> on the empty vectors value-initialises them.
\<close>

definition RobotState ::
  "('f, 'e) kdl_lib \<Rightarrow> urdf_model \<Rightarrow> kdl_tree \<Rightarrow> bool \<times> kdl_chain \<Rightarrow>
   (real list \<Rightarrow> 'f \<Rightarrow> int \<times> 'f) \<Rightarrow> (real list \<Rightarrow> 'f \<Rightarrow> string \<Rightarrow> int \<times> 'f) \<Rightarrow>
   fault + 'f robot_state" where
  "RobotState K u t got_chain csolver tsolver =
     (let s0 = \<lparr>urdf = u, kin_tree = t, segment_map = getSegments t,
                joint_map = replicate (tree_NrOfJoints t) [],
                lower_limit = replicate (tree_NrOfJoints t) 0,
                upper_limit = replicate (tree_NrOfJoints t) 0,
                base_2_cam = snd got_chain,
                chain_solver = csolver, tree_solver = tsolver,
                part_mesh_map = [], jnt_array = [],
                cam_frame = frame_default K, frame_map = Map.empty, ros_log = []\<rparr>
      in case joint_index_loop (segment_map s0) s0 of
           Inl f \<Rightarrow> Inl f
         | Inr s1 \<Rightarrow>
             Inr (s1\<lparr>ros_log := ros_log s1 @
                        [if fst got_chain then InfoChainCreated else ErrNoChain]\<rparr>))"

section \<open>GetJointIndex and num\_joints\<close>

function GetJointIndex_from :: "string list \<Rightarrow> nat \<Rightarrow> string \<Rightarrow> int" where
  "GetJointIndex_from jm i nm =
     (if i < length jm then
        (if jm ! i = nm then int i else GetJointIndex_from jm (Suc i) nm)
      else - 1)"
  by pat_completeness auto
termination
  by (relation "measure (\<lambda>(jm, i, nm). length jm - i)") auto

declare GetJointIndex_from.simps [simp del]

definition GetJointIndex :: "'f robot_state \<Rightarrow> string \<Rightarrow> int" where
  "GetJointIndex s nm = GetJointIndex_from (joint_map s) 0 nm"

definition num_joints :: "'f robot_state \<Rightarrow> nat" where
  "num_joints s = tree_NrOfJoints (kin_tree s)"

section \<open>GetPartMeshPaths: link selection\<close>

text \<open>
  The \<^verbatim>\<open>while\<close> loop of lines 118 to 122: as long as the name of the current link
  differs from the name of the root, go to the parent. Its only exit is a link named like
  the root. A null parent makes the next test \<^verbatim>\<open>tmp_link->name\<close> a null dereference.
  The loop need not end when parent pointers form a cycle, hence the result is an option:
  \<^term>\<open>None\<close> is a walk that never returns.
\<close>

partial_function (option) walk_to_root ::
  "(link_ptr \<Rightarrow> urdf_link) \<Rightarrow> string \<Rightarrow> link_ptr \<Rightarrow> (fault + link_ptr) option" where
  "walk_to_root heap global_root tmp_link =
     (if link_name (heap tmp_link) \<noteq> global_root then
        (case getParent (heap tmp_link) of
           None \<Rightarrow> Some (Inl NullDeref)
         | Some p \<Rightarrow> walk_to_root heap global_root p)
      else Some (Inr tmp_link))"

declare walk_to_root.simps [code]

text \<open>
  \<^verbatim>\<open>filename.substr(filename.size() - 4, 4)\<close>: for a name shorter than four characters
  the unsigned difference wraps, the position lies beyond the size and \<^verbatim>\<open>substr\<close> throws.
\<close>

definition substr_last4 :: "string \<Rightarrow> fault + string" where
  "substr_last4 filename =
     (if length filename < 4 then Inl SubstrOutOfRange
      else Inr (take 4 (drop (length filename - 4) filename)))"

text \<open>
  The body of the \<^verbatim>\<open>for\<close> loop after the walk (lines 124 to 140), on the link
  \<open>tmp_link\<close> the walk ended at; \<open>li\<close> is \<^verbatim>\<open>links[i]\<close>, used for the printed line only.
  The accumulator is the reference parameter \<^verbatim>\<open>part_mesh_paths\<close> and the state.
\<close>

definition mesh_step ::
  "urdf_link \<Rightarrow> urdf_link \<Rightarrow> string list \<times> 'f robot_state \<Rightarrow>
   fault + (string list \<times> 'f robot_state)" where
  "mesh_step li tmp_link acc =
     (case visual tmp_link of
        None \<Rightarrow> Inr acc
      | Some v \<Rightarrow>
         (case geom v of
            Some (MESH filename) \<Rightarrow>
              (case substr_last4 filename of
                 Inl f \<Rightarrow> Inl f
               | Inr ext \<Rightarrow>
                   if ext = ''.stl'' \<or> ext = ''.dae'' then
                     Inr (fst acc @ [filename],
                          (snd acc)\<lparr>part_mesh_map := part_mesh_map (snd acc) @ [link_name tmp_link],
                                    ros_log := ros_log (snd acc) @
                                      [CoutDescendant (link_name li) (link_name tmp_link)]\<rparr>)
                   else Inr acc)
          | _ \<Rightarrow> Inr acc))"

fun mesh_loop ::
  "(link_ptr \<Rightarrow> urdf_link) \<Rightarrow> string \<Rightarrow> link_ptr list \<Rightarrow> string list \<times> 'f robot_state \<Rightarrow>
   (fault + (string list \<times> 'f robot_state)) option" where
  "mesh_loop heap global_root [] acc = Some (Inr acc)"
| "mesh_loop heap global_root (l # ls) acc =
     (case walk_to_root heap global_root l of
        None \<Rightarrow> None
      | Some (Inl f) \<Rightarrow> Some (Inl f)
      | Some (Inr t) \<Rightarrow>
          (case mesh_step (heap l) (heap t) acc of
             Inl f \<Rightarrow> Some (Inl f)
           | Inr acc' \<Rightarrow> mesh_loop heap global_root ls acc'))"

text \<open>
  \<^verbatim>\<open>GetPartMeshPaths(std::vector<std::string> &part_mesh_paths)\<close>: the vector is a
  reference parameter, so its final contents are returned with the new state.
  \<^verbatim>\<open>urdf_.getRoot()->name\<close> dereferences the root pointer.
\<close>

definition GetPartMeshPaths ::
  "'f robot_state \<Rightarrow> string list \<Rightarrow> (fault + (string list \<times> 'f robot_state)) option" where
  "GetPartMeshPaths s part_mesh_paths =
     (case getRoot (urdf s) of
        None \<Rightarrow> Some (Inl NullDeref)
      | Some r \<Rightarrow>
          mesh_loop (link_at (urdf s)) (link_name (link_at (urdf s) r))
            (getLinks (urdf s)) (part_mesh_paths, s))"

section \<open>GetInitialJoints: the sparse update\<close>

text \<open>
  \<^verbatim>\<open>Eigen::VectorXd::resize(n)\<close> keeps a vector that already has \<open>n\<close> rows and
  otherwise allocates \<open>n\<close> rows that it does not initialise. What such memory holds is
  an input of the model: \<open>uninit i\<close> is the value found in row \<open>i\<close>.
\<close>

definition eigen_resize :: "(nat \<Rightarrow> real) \<Rightarrow> real list \<Rightarrow> nat \<Rightarrow> real list" where
  "eigen_resize uninit v n = (if length v = n then v else map uninit [0..<n])"

text \<open>
  The loop of lines 249 to 260 runs over \<^verbatim>\<open>state.position\<close>; \<open>i\<close> is
  \<^verbatim>\<open>jnt - state.position.begin()\<close>. \<^verbatim>\<open>state.name[i]\<close> and \<^verbatim>\<open>jnt_angles(tmp_index)\<close>
  are unchecked accesses.
\<close>

fun GetInitialJoints_loop ::
  "'f robot_state \<Rightarrow> string list \<Rightarrow> nat \<Rightarrow> real list \<Rightarrow> real list \<times> log_entry list \<Rightarrow>
   fault + (real list \<times> log_entry list)" where
  "GetInitialJoints_loop s names i [] acc = Inr acc"
| "GetInitialJoints_loop s names i (jnt # rest) acc =
     (if \<not> i < length names then Inl (IndexOutOfRange i (length names))
      else
        let tmp_index = GetJointIndex s (names ! i) in
        if tmp_index \<ge> 0 then
          (if \<not> nat tmp_index < length (fst acc) then
             Inl (IndexOutOfRange (nat tmp_index) (length (fst acc)))
           else GetInitialJoints_loop s names (Suc i) rest
                  ((fst acc)[nat tmp_index := jnt], snd acc))
        else GetInitialJoints_loop s names (Suc i) rest
               (fst acc, snd acc @ [ErrNoJointIndex i (names ! i)]))"

text \<open>
  \<^verbatim>\<open>GetInitialJoints(state, jnt_angles)\<close>: \<open>jnt_angles\<close> is a reference parameter;
  the function returns its final contents and the lines written to the log.
\<close>

definition GetInitialJoints ::
  "(nat \<Rightarrow> real) \<Rightarrow> 'f robot_state \<Rightarrow> joint_state \<Rightarrow> real list \<Rightarrow>
   fault + (real list \<times> log_entry list)" where
  "GetInitialJoints uninit s state jnt_angles =
     GetInitialJoints_loop s (js_name state) 0 (js_position state)
       (eigen_resize uninit jnt_angles (num_joints s), ros_log s)"

section \<open>SetCameraTransform: the chain from getChain\<close>

text \<open>
  Lines 189 to 202. \<open>acc\<close> is \<open>(j, chain_jnt_array, log)\<close>. When the joint name is not in
  \<^verbatim>\<open>joint_map_\<close> the error line is printed and execution goes on to
  \<^verbatim>\<open>jnt_array_(location - joint_map_.begin())\<close> with \<open>location\<close> at the end.
\<close>

definition chain_step ::
  "'f robot_state \<Rightarrow> kdl_segment \<Rightarrow> nat \<times> real list \<times> log_entry list \<Rightarrow>
   fault + (nat \<times> real list \<times> log_entry list)" where
  "chain_step s seg acc =
     (case acc of (j, chain_jnt_array, lg) \<Rightarrow>
       if kj_type (seg_joint seg) \<noteq> JointNone then
         (let nm = kj_name (seg_joint seg);
              location = std_find (joint_map s) nm;
              lg' = (if location = length (joint_map s)
                     then lg @ [ErrJointNotInJointState] else lg)
          in if \<not> location < length (jnt_array s) then
               Inl (IndexOutOfRange location (length (jnt_array s)))
             else if \<not> j < length chain_jnt_array then
               Inl (IndexOutOfRange j (length chain_jnt_array))
             else Inr (Suc j, chain_jnt_array[j := jnt_array s ! location], lg'))
       else Inr acc)"

fun chain_loop ::
  "'f robot_state \<Rightarrow> kdl_segment list \<Rightarrow> nat \<times> real list \<times> log_entry list \<Rightarrow>
   fault + (nat \<times> real list \<times> log_entry list)" where
  "chain_loop s [] acc = Inr acc"
| "chain_loop s (seg # rest) acc =
     (case chain_step s seg acc of
        Inl f \<Rightarrow> Inl f
      | Inr acc' \<Rightarrow> chain_loop s rest acc')"

text \<open>
  \<^verbatim>\<open>KDL::JntArray(n)\<close> is a zero vector of \<open>n\<close> rows. The solver is called with
  \<^verbatim>\<open>cam_frame_\<close> as its output frame; a negative status prints an error line and
  nothing else.
\<close>

definition SetCameraTransform :: "'f robot_state \<Rightarrow> fault + 'f robot_state" where
  "SetCameraTransform s =
     (case chain_loop s (chain_segments (base_2_cam s))
             (0, replicate (chain_NrOfJoints (base_2_cam s)) 0, ros_log s) of
        Inl f \<Rightarrow> Inl f
      | Inr (j, chain_jnt_array, lg) \<Rightarrow>
          (let r = chain_solver s chain_jnt_array (cam_frame s)
           in Inr (s\<lparr>cam_frame := snd r,
                     ros_log := (if fst r < 0 then lg @ [ErrChainSolver] else lg)\<rparr>)))"

section \<open>ComputeLinkTransforms\<close>

text \<open>
  Lines 212 to 225. For a segment whose name is found in \<^verbatim>\<open>part_mesh_map_\<close> a fresh
  \<^verbatim>\<open>KDL::Frame frame\<close> is handed to the tree solver; a negative status prints an error
  line; the assignment to \<^verbatim>\<open>frame_map_[name]\<close> follows in either case.
\<close>

definition link_step :: "('f, 'e) kdl_lib \<Rightarrow> tree_element \<Rightarrow> 'f robot_state \<Rightarrow> 'f robot_state" where
  "link_step K e s =
     (let nm = seg_name (segment e) in
      if std_find (part_mesh_map s) nm \<noteq> length (part_mesh_map s) then
        (let r = tree_solver s (jnt_array s) (frame_default K) nm;
             lg = (if fst r < 0 then ros_log s @ [ErrTreeSolver nm] else ros_log s)
         in s\<lparr>frame_map := (frame_map s)(nm \<mapsto> frame_mul K (cam_frame s) (snd r)),
              ros_log := lg\<rparr>)
      else s)"

fun link_loop ::
  "('f, 'e) kdl_lib \<Rightarrow> (string \<times> tree_element) list \<Rightarrow> 'f robot_state \<Rightarrow> 'f robot_state" where
  "link_loop K [] s = s"
| "link_loop K (seg_it # rest) s = link_loop K rest (link_step K (snd seg_it) s)"

definition ComputeLinkTransforms :: "('f, 'e) kdl_lib \<Rightarrow> 'f robot_state \<Rightarrow> 'f robot_state" where
  "ComputeLinkTransforms K s = link_loop K (segment_map s) s"

section \<open>InitKDLData and GetTransforms\<close>

text \<open>
  \<^verbatim>\<open>InitKDLData\<close>: the local \<^verbatim>\<open>Eigen::VectorXd jnt_angles\<close> starts empty, is filled by
  \<^verbatim>\<open>GetInitialJoints\<close> and is then assigned to \<^verbatim>\<open>jnt_array_.data\<close>.
\<close>

definition InitKDLData ::
  "('f, 'e) kdl_lib \<Rightarrow> (nat \<Rightarrow> real) \<Rightarrow> 'f robot_state \<Rightarrow> joint_state \<Rightarrow> fault + 'f robot_state" where
  "InitKDLData K uninit s joint_state =
     (case GetInitialJoints uninit s joint_state [] of
        Inl f \<Rightarrow> Inl f
      | Inr (jnt_angles, lg) \<Rightarrow>
          (case SetCameraTransform (s\<lparr>jnt_array := jnt_angles, ros_log := lg\<rparr>) of
             Inl f \<Rightarrow> Inl f
           | Inr s' \<Rightarrow> Inr (ComputeLinkTransforms K s')))"

text \<open>
  The loop of \<^verbatim>\<open>GetTransforms\<close> (lines 155 to 166). \<^verbatim>\<open>frame_map_[name]\<close> is
  \<^verbatim>\<open>std::map::operator[]\<close>, which inserts a default frame for a missing key.
  The accumulator is the state and the function's own vector \<^verbatim>\<open>current_tfs\<close>.
\<close>

definition tf_step ::
  "('f, 'e) kdl_lib \<Rightarrow> tree_element \<Rightarrow> 'f robot_state \<times> 'e list \<Rightarrow> 'f robot_state \<times> 'e list" where
  "tf_step K e acc =
     (let s = fst acc; nm = seg_name (segment e) in
      if std_find (part_mesh_map s) nm \<noteq> length (part_mesh_map s) then
        (case frame_map s nm of
           None \<Rightarrow> (s\<lparr>frame_map := (frame_map s)(nm \<mapsto> frame_default K)\<rparr>,
                    snd acc @ [transformKDLToEigen K (frame_default K)])
         | Some fr \<Rightarrow> (s, snd acc @ [transformKDLToEigen K fr]))
      else acc)"

fun tf_loop ::
  "('f, 'e) kdl_lib \<Rightarrow> (string \<times> tree_element) list \<Rightarrow> 'f robot_state \<times> 'e list \<Rightarrow>
   'f robot_state \<times> 'e list" where
  "tf_loop K [] acc = acc"
| "tf_loop K (seg_it # rest) acc = tf_loop K rest (tf_step K (snd seg_it) acc)"

text \<open>
  The body of \<^verbatim>\<open>GetTransforms\<close>, run on the function's parameter variables. It returns
  the new object state and the contents of its variable \<^verbatim>\<open>current_tfs\<close> at the closing
  brace. \<^verbatim>\<open>reserve\<close> changes no contents; \<^verbatim>\<open>noisy\<close> is not read.
\<close>

definition GetTransforms_body ::
  "('f, 'e) kdl_lib \<Rightarrow> (nat \<Rightarrow> real) \<Rightarrow> 'f robot_state \<Rightarrow> joint_state \<Rightarrow> 'e list \<Rightarrow> bool \<Rightarrow>
   fault + ('f robot_state \<times> 'e list)" where
  "GetTransforms_body K uninit s joint_state current_tfs noisy =
     (case InitKDLData K uninit s joint_state of
        Inl f \<Rightarrow> Inl f
      | Inr s' \<Rightarrow> Inr (tf_loop K (segment_map s') (s', current_tfs)))"

text \<open>
  A call \<^verbatim>\<open>GetTransforms(joint_state, tfs, noisy)\<close> from a caller that owns the vector
  \<open>tfs\<close>. The declaration is
  \<^verbatim>\<open>GetTransforms(const sensor_msgs::JointState &, std::vector<Eigen::Affine3d> current_tfs, bool)\<close>:
  the second parameter is passed by value, so the body runs on a copy of \<open>tfs\<close> that is
  destroyed on return. The result is the new object state and the caller's vector after
  the call.
\<close>

definition GetTransforms ::
  "('f, 'e) kdl_lib \<Rightarrow> (nat \<Rightarrow> real) \<Rightarrow> 'f robot_state \<Rightarrow> joint_state \<Rightarrow> 'e list \<Rightarrow> bool \<Rightarrow>
   fault + ('f robot_state \<times> 'e list)" where
  "GetTransforms K uninit s joint_state tfs noisy =
     (let current_tfs = tfs in
      case GetTransforms_body K uninit s joint_state current_tfs noisy of
        Inl f \<Rightarrow> Inl f
      | Inr (s', current_tfs') \<Rightarrow> Inr (s', tfs))"

section \<open>A small robot to evaluate the definitions on\<close>

text \<open>
  A robot that moves along one axis: a frame is an offset on that axis, composing frames
  adds offsets. The links are \<open>base\<close>, \<open>l1\<close> and \<open>l2\<close>; the two joints \<open>j1\<close> and
  \<open>j2\<close> are prismatic. The camera sits on \<open>l1\<close>, so the chain obtained from
  \<^verbatim>\<open>getChain(cam_frame, base_frame, _)\<close> has the single joint \<open>j1\<close> and its solver
  returns the offset of the base seen from the camera.
\<close>

definition ex_lib :: "(real, real) kdl_lib" where
  "ex_lib = \<lparr>frame_default = 0, frame_mul = (+), transformKDLToEigen = (\<lambda>x. x)\<rparr>"

definition ex_link :: "link_ptr \<Rightarrow> urdf_link" where
  "ex_link p =
     (if p = 0 then \<lparr>link_name = ''base'',
                     visual = Some \<lparr>geom = Some (MESH ''base.stl'')\<rparr>, getParent = None\<rparr>
      else if p = 1 then \<lparr>link_name = ''l1'',
                     visual = Some \<lparr>geom = Some (MESH ''l1.dae'')\<rparr>, getParent = Some 0\<rparr>
      else \<lparr>link_name = ''l2'', visual = None, getParent = Some 1\<rparr>)"

definition ex_joint :: "string \<Rightarrow> urdf_joint option" where
  "ex_joint nm =
     (if nm = ''j1'' then Some \<lparr>uj_name = ''j1'', uj_type = PRISMATIC,
                               limits = Some \<lparr>lower = 0, upper = 1\<rparr>\<rparr>
      else if nm = ''j2'' then Some \<lparr>uj_name = ''j2'', uj_type = PRISMATIC,
                               limits = Some \<lparr>lower = - 1, upper = 2\<rparr>\<rparr>
      else None)"

definition ex_urdf :: urdf_model where
  "ex_urdf = \<lparr>link_at = ex_link, getLinks = [0, 1, 2], getRoot = Some 0, getJoint = ex_joint\<rparr>"

definition ex_seg :: "string \<Rightarrow> string \<Rightarrow> kdl_joint_type \<Rightarrow> kdl_segment" where
  "ex_seg nm jn jt = \<lparr>seg_name = nm, seg_joint = \<lparr>kj_name = jn, kj_type = jt\<rparr>\<rparr>"

definition ex_tree :: kdl_tree where
  "ex_tree = \<lparr>getSegments =
      [(''base'', \<lparr>segment = ex_seg ''base'' ''NoName'' JointNone, q_nr = 0\<rparr>),
       (''l1'', \<lparr>segment = ex_seg ''l1'' ''j1'' TransAxis, q_nr = 0\<rparr>),
       (''l2'', \<lparr>segment = ex_seg ''l2'' ''j2'' TransAxis, q_nr = 1\<rparr>)],
     tree_NrOfJoints = 2\<rparr>"

definition ex_chain :: kdl_chain where
  "ex_chain = \<lparr>chain_segments = [ex_seg ''base'' ''j1'' TransAxis], chain_NrOfJoints = 1\<rparr>"

definition ex_chain_solver :: "real list \<Rightarrow> real \<Rightarrow> int \<times> real" where
  "ex_chain_solver q p_out = (if length q \<noteq> 1 then (- 1, 0) else (0, - (q ! 0)))"

definition ex_tree_solver :: "real list \<Rightarrow> real \<Rightarrow> string \<Rightarrow> int \<times> real" where
  "ex_tree_solver q p_out nm =
     (if length q \<noteq> 2 then (- 1, p_out)
      else if nm = ''base'' then (0, 0)
      else if nm = ''l1'' then (0, q ! 0)
      else if nm = ''l2'' then (0, q ! 0 + q ! 1)
      else (- 2, p_out))"

definition ex_state :: "real robot_state" where
  "ex_state = \<lparr>urdf = ex_urdf, kin_tree = ex_tree, segment_map = getSegments ex_tree,
     joint_map = [''j1'', ''j2''], lower_limit = [0, - 1], upper_limit = [1, 2],
     base_2_cam = ex_chain, chain_solver = ex_chain_solver, tree_solver = ex_tree_solver,
     part_mesh_map = [], jnt_array = [], cam_frame = 0, frame_map = Map.empty,
     ros_log = [InfoChainCreated]\<rparr>"

text \<open>An update of three entries, the second of which names no joint of the robot.\<close>

definition ex_update_unknown :: joint_state where
  "ex_update_unknown = \<lparr>js_name = [''j1'', ''bogus'', ''j2''], js_position = [1/2, 9, 1/4]\<rparr>"

text \<open>Three updates: \<open>j1\<close> alone, \<open>j2\<close> alone, and both together.\<close>

definition ex_update_j1 :: joint_state where
  "ex_update_j1 = \<lparr>js_name = [''j1''], js_position = [1/2]\<rparr>"

definition ex_update_j2 :: joint_state where
  "ex_update_j2 = \<lparr>js_name = [''j2''], js_position = [1/4]\<rparr>"

definition ex_update_j1_j2 :: joint_state where
  "ex_update_j1_j2 = \<lparr>js_name = [''j1'', ''j2''], js_position = [1/2, 1/4]\<rparr>"

text \<open>
  A tree solver that reports an error for every segment and leaves its output frame as
  it found it, and the example object with that solver, with \<open>base\<close> tracked and with
  a frame for \<open>base\<close> left in the map by an earlier call.
\<close>

definition ex_tree_solver_failing :: "real list \<Rightarrow> real \<Rightarrow> string \<Rightarrow> int \<times> real" where
  "ex_tree_solver_failing q p_out nm = (- 1, p_out)"

definition ex_failing :: "real robot_state" where
  "ex_failing = ex_state\<lparr>tree_solver := ex_tree_solver_failing,
     part_mesh_map := [''base'', ''base'', ''base''], frame_map := [''base'' \<mapsto> 5]\<rparr>"

text \<open>The example object after \<^verbatim>\<open>GetPartMeshPaths\<close> has run once on it.\<close>

definition ex_selected :: "real robot_state" where
  "ex_selected = ex_state\<lparr>part_mesh_map := [''base'', ''base'', ''base''],
     ros_log := [InfoChainCreated, CoutDescendant ''base'' ''base'',
                 CoutDescendant ''l1'' ''base'', CoutDescendant ''l2'' ''base'']\<rparr>"

section \<open>Notions used to state the properties of link selection\<close>

text \<open>
  The test of lines 124 to 132 as a predicate on a link: it has a visual, the visual has
  a geometry, the geometry is a mesh and the last four characters of its file name are
  \<open>.stl\<close> or \<open>.dae\<close>.
\<close>

definition recognized_mesh :: "urdf_link \<Rightarrow> bool" where
  "recognized_mesh l =
     (case visual l of
        None \<Rightarrow> False
      | Some v \<Rightarrow>
         (case geom v of
            Some (MESH filename) \<Rightarrow>
              (case substr_last4 filename of
                 Inl f \<Rightarrow> False
               | Inr ext \<Rightarrow> ext = ''.stl'' \<or> ext = ''.dae'')
          | _ \<Rightarrow> False))"

text \<open>
  The walk as the specification words it, for comparison with \<^const>\<open>walk_to_root\<close>:
  go up the parent pointers until reaching either the topology root or a link whose
  visual geometry is a mesh with a recognized file extension.
\<close>

partial_function (option) spec_walk_to_mesh_or_root ::
  "(link_ptr \<Rightarrow> urdf_link) \<Rightarrow> string \<Rightarrow> link_ptr \<Rightarrow> (fault + link_ptr) option" where
  "spec_walk_to_mesh_or_root heap global_root l =
     (if link_name (heap l) = global_root \<or> recognized_mesh (heap l) then Some (Inr l)
      else (case getParent (heap l) of
              None \<Rightarrow> Some (Inl NullDeref)
            | Some p \<Rightarrow> spec_walk_to_mesh_or_root heap global_root p))"

text \<open>
  A link reaches the root when following parent pointers from it arrives at a link that
  bears the root's name.
\<close>

inductive reaches_root :: "(link_ptr \<Rightarrow> urdf_link) \<Rightarrow> string \<Rightarrow> link_ptr \<Rightarrow> bool"
  for heap :: "link_ptr \<Rightarrow> urdf_link" and global_root :: string where
  at_root: "link_name (heap l) = global_root \<Longrightarrow> reaches_root heap global_root l"
| via_parent: "link_name (heap l) \<noteq> global_root \<Longrightarrow> getParent (heap l) = Some p \<Longrightarrow>
     reaches_root heap global_root p \<Longrightarrow> reaches_root heap global_root l"

section \<open>Notions used to state the properties of the joint index\<close>

text \<open>The tree elements whose KDL joint is not \<^verbatim>\<open>None\<close>, in the order of the segment map.\<close>

definition movable_segments :: "kdl_tree \<Rightarrow> tree_element list" where
  "movable_segments t =
     filter (\<lambda>e. kj_type (seg_joint (segment e)) \<noteq> JointNone) (map snd (getSegments t))"

text \<open>
  The urdf model knows the joint of a tree element: the lookup by the KDL joint's name
  returns a joint of that name that is neither \<^verbatim>\<open>UNKNOWN\<close> nor \<^verbatim>\<open>FIXED\<close> and that
  has limits.
\<close>

definition urdf_has_joint :: "urdf_model \<Rightarrow> tree_element \<Rightarrow> bool" where
  "urdf_has_joint u e =
     (case getJoint u (kj_name (seg_joint (segment e))) of
        None \<Rightarrow> False
      | Some j \<Rightarrow> uj_name j = kj_name (seg_joint (segment e)) \<and>
                 uj_type j \<noteq> UNKNOWN \<and> uj_type j \<noteq> FIXED \<and> limits j \<noteq> None)"





text \<open>
  The example robot with \<open>j1\<close> described as a continuous joint without a limit element,
  which the description format allows: its \<^verbatim>\<open>limits\<close> pointer is null.
\<close>

definition ex_joint_continuous :: "string \<Rightarrow> urdf_joint option" where
  "ex_joint_continuous nm =
     (if nm = ''j1'' then Some \<lparr>uj_name = ''j1'', uj_type = CONTINUOUS, limits = None\<rparr>
      else ex_joint nm)"

definition ex_urdf_continuous :: urdf_model where
  "ex_urdf_continuous = ex_urdf\<lparr>getJoint := ex_joint_continuous\<rparr>"

section \<open>Facts about the index lookup\<close>

lemma GetJointIndex_from_std_find:
  "i \<le> length jm \<Longrightarrow>
   GetJointIndex_from jm i nm =
     (if nm \<in> set (drop i jm) then int (i + std_find (drop i jm) nm) else - 1)"
proof (induction jm i nm rule: GetJointIndex_from.induct)
  case (1 jm i nm)
  show ?case
  proof (cases "i < length jm")
    case True
    then have d: "drop i jm = jm ! i # drop (Suc i) jm"
      by (simp add: Cons_nth_drop_Suc)
    show ?thesis
    proof (cases "jm ! i = nm")
      case True
      with \<open>i < length jm\<close> d show ?thesis
        by (subst GetJointIndex_from.simps) simp
    next
      case False
      with \<open>i < length jm\<close> have "GetJointIndex_from jm i nm = GetJointIndex_from jm (Suc i) nm"
        by (subst GetJointIndex_from.simps) simp
      also have "\<dots> = (if nm \<in> set (drop (Suc i) jm)
                        then int (Suc i + std_find (drop (Suc i) jm) nm) else - 1)"
        using "1.IH" [OF \<open>i < length jm\<close> False] \<open>i < length jm\<close> by simp
      finally show ?thesis using False d by simp
    qed
  next
    case False
    then show ?thesis by (subst GetJointIndex_from.simps) simp
  qed
qed

lemma std_find_le: "std_find xs x \<le> length xs"
  by (induction xs) auto

lemma std_find_mem: "x \<in> set xs \<longleftrightarrow> std_find xs x \<noteq> length xs"
  by (induction xs) auto

lemma std_find_nth: "x \<in> set xs \<Longrightarrow> xs ! std_find xs x = x"
  by (induction xs) auto

lemma std_find_lt: "x \<in> set xs \<Longrightarrow> std_find xs x < length xs"
  by (induction xs) auto

lemma std_find_distinct: "distinct xs \<Longrightarrow> i < length xs \<Longrightarrow> std_find xs (xs ! i) = i"
proof (induction xs arbitrary: i)
  case Nil then show ?case by simp
next
  case (Cons y ys)
  then show ?case by (cases i) auto
qed

lemma GetJointIndex_eq:
  "GetJointIndex s nm =
     (if nm \<in> set (joint_map s) then int (std_find (joint_map s) nm) else - 1)"
  unfolding GetJointIndex_def by (simp add: GetJointIndex_from_std_find)

lemma GetJointIndex_range:
  "0 \<le> GetJointIndex s nm \<Longrightarrow> nat (GetJointIndex s nm) < length (joint_map s)"
  by (auto simp: GetJointIndex_eq std_find_lt split: if_splits)


lemma GetInitialJoints_loop_char:
  "i + length ps \<le> length names \<Longrightarrow> length v0 = length (joint_map s) \<Longrightarrow>
   \<exists>v. GetInitialJoints_loop s names i ps (v0, lg0) =
         Inr (v, lg0 @ map (\<lambda>k. ErrNoJointIndex k (names ! k))
                         (filter (\<lambda>k. GetJointIndex s (names ! k) < 0) [i..<i + length ps]))
     \<and> length v = length v0
     \<and> (\<forall>j<length v0. (\<forall>k\<in>{i..<i + length ps}. GetJointIndex s (names ! k) \<noteq> int j)
            \<longrightarrow> v ! j = v0 ! j)
     \<and> (\<forall>k\<in>{i..<i + length ps}. 0 \<le> GetJointIndex s (names ! k) \<longrightarrow>
            (\<forall>k'\<in>{Suc k..<i + length ps}.
                GetJointIndex s (names ! k') \<noteq> GetJointIndex s (names ! k))
            \<longrightarrow> v ! nat (GetJointIndex s (names ! k)) = ps ! (k - i))"
proof (induction ps arbitrary: i v0 lg0)
  case Nil
  then show ?case by simp
next
  case (Cons p ps)
  let ?g = "\<lambda>k. GetJointIndex s (names ! k)"
  from Cons.prems have i_lt: "i < length names" and rest: "Suc i + length ps \<le> length names"
    by simp_all
  have "i < i + length (p # ps)" by simp
  then have "[i..<i + length (p # ps)] = i # [Suc i..<i + length (p # ps)]"
    by (rule upt_conv_Cons)
  moreover have "i + length (p # ps) = Suc i + length ps" by simp
  ultimately have upt: "[i..<i + length (p # ps)] = i # [Suc i..<Suc i + length ps]"
    by metis
  have rng: "{i..<i + length (p # ps)} = insert i {Suc i..<Suc i + length ps}"
    by auto
  show ?case
  proof (cases "0 \<le> ?g i")
    case True
    then have idx: "nat (?g i) < length v0"
      using GetJointIndex_range [of s "names ! i"] Cons.prems(2) by simp
    let ?v1 = "v0[nat (?g i) := p]"
    have step: "GetInitialJoints_loop s names i (p # ps) (v0, lg0) =
                GetInitialJoints_loop s names (Suc i) ps (?v1, lg0)"
      using True idx i_lt by (simp add: Let_def)
    from Cons.IH [OF rest, of ?v1 lg0] Cons.prems(2)
    obtain v where
      r: "GetInitialJoints_loop s names (Suc i) ps (?v1, lg0) =
            Inr (v, lg0 @ map (\<lambda>k. ErrNoJointIndex k (names ! k))
                           (filter (\<lambda>k. ?g k < 0) [Suc i..<Suc i + length ps]))"
      and len: "length v = length ?v1"
      and keep: "\<forall>j<length ?v1. (\<forall>k\<in>{Suc i..<Suc i + length ps}. ?g k \<noteq> int j)
                    \<longrightarrow> v ! j = ?v1 ! j"
      and hit: "\<forall>k\<in>{Suc i..<Suc i + length ps}. 0 \<le> ?g k \<longrightarrow>
                  (\<forall>k'\<in>{Suc k..<Suc i + length ps}. ?g k' \<noteq> ?g k)
                  \<longrightarrow> v ! nat (?g k) = ps ! (k - Suc i)"
      by auto
    have a: "GetInitialJoints_loop s names i (p # ps) (v0, lg0) =
         Inr (v, lg0 @ map (\<lambda>k. ErrNoJointIndex k (names ! k))
                         (filter (\<lambda>k. ?g k < 0) [i..<i + length (p # ps)]))"
    proof -
      have "filter (\<lambda>k. ?g k < 0) [i..<i + length (p # ps)] =
            filter (\<lambda>k. ?g k < 0) [Suc i..<Suc i + length ps]"
        unfolding upt using True by simp
      with step r show ?thesis by (simp only:)
    qed
    have b: "length v = length v0" using len by simp
    have c: "\<forall>j<length v0. (\<forall>k\<in>{i..<i + length (p # ps)}. ?g k \<noteq> int j) \<longrightarrow> v ! j = v0 ! j"
    proof (intro allI impI)
      fix j assume j: "j < length v0" and no: "\<forall>k\<in>{i..<i + length (p # ps)}. ?g k \<noteq> int j"
      from no have "?g i \<noteq> int j" and "\<forall>k\<in>{Suc i..<Suc i + length ps}. ?g k \<noteq> int j"
        by (simp_all add: rng)
      with keep j True have "v ! j = ?v1 ! j" by simp
      moreover from \<open>?g i \<noteq> int j\<close> True have "nat (?g i) \<noteq> j" by auto
      ultimately show "v ! j = v0 ! j" by simp
    qed
    have d: "\<forall>k\<in>{i..<i + length (p # ps)}. 0 \<le> ?g k \<longrightarrow>
               (\<forall>k'\<in>{Suc k..<i + length (p # ps)}. ?g k' \<noteq> ?g k)
               \<longrightarrow> v ! nat (?g k) = (p # ps) ! (k - i)"
    proof (intro ballI impI)
      fix k assume k: "k \<in> {i..<i + length (p # ps)}" and pos: "0 \<le> ?g k"
        and later: "\<forall>k'\<in>{Suc k..<i + length (p # ps)}. ?g k' \<noteq> ?g k"
      show "v ! nat (?g k) = (p # ps) ! (k - i)"
      proof (cases "k = i")
        case True
        from later True have "\<forall>k'\<in>{Suc i..<Suc i + length ps}. ?g k' \<noteq> int (nat (?g i))"
          using pos by simp
        with keep idx have "v ! nat (?g i) = ?v1 ! nat (?g i)" by simp
        with idx True show ?thesis by simp
      next
        case False
        with k have k': "k \<in> {Suc i..<Suc i + length ps}" by auto
        from later have "\<forall>k'\<in>{Suc k..<Suc i + length ps}. ?g k' \<noteq> ?g k" by simp
        with hit k' pos have "v ! nat (?g k) = ps ! (k - Suc i)" by blast
        moreover from k' have "k - i = Suc (k - Suc i)" by auto
        then have "(p # ps) ! (k - i) = ps ! (k - Suc i)" by simp
        ultimately show ?thesis by simp
      qed
    qed
    from a b c d show ?thesis by blast
  next
    case False
    let ?lg1 = "lg0 @ [ErrNoJointIndex i (names ! i)]"
    have step: "GetInitialJoints_loop s names i (p # ps) (v0, lg0) =
                GetInitialJoints_loop s names (Suc i) ps (v0, ?lg1)"
      using False i_lt by (simp add: Let_def)
    from Cons.IH [OF rest, of v0 ?lg1] Cons.prems(2)
    obtain v where
      r: "GetInitialJoints_loop s names (Suc i) ps (v0, ?lg1) =
            Inr (v, ?lg1 @ map (\<lambda>k. ErrNoJointIndex k (names ! k))
                           (filter (\<lambda>k. ?g k < 0) [Suc i..<Suc i + length ps]))"
      and len: "length v = length v0"
      and keep: "\<forall>j<length v0. (\<forall>k\<in>{Suc i..<Suc i + length ps}. ?g k \<noteq> int j)
                    \<longrightarrow> v ! j = v0 ! j"
      and hit: "\<forall>k\<in>{Suc i..<Suc i + length ps}. 0 \<le> ?g k \<longrightarrow>
                  (\<forall>k'\<in>{Suc k..<Suc i + length ps}. ?g k' \<noteq> ?g k)
                  \<longrightarrow> v ! nat (?g k) = ps ! (k - Suc i)"
      by auto
    have a: "GetInitialJoints_loop s names i (p # ps) (v0, lg0) =
         Inr (v, lg0 @ map (\<lambda>k. ErrNoJointIndex k (names ! k))
                         (filter (\<lambda>k. ?g k < 0) [i..<i + length (p # ps)]))"
    proof -
      have "filter (\<lambda>k. ?g k < 0) [i..<i + length (p # ps)] =
            i # filter (\<lambda>k. ?g k < 0) [Suc i..<Suc i + length ps]"
        unfolding upt using False by simp
      then have "lg0 @ map (\<lambda>k. ErrNoJointIndex k (names ! k))
                         (filter (\<lambda>k. ?g k < 0) [i..<i + length (p # ps)]) =
                 ?lg1 @ map (\<lambda>k. ErrNoJointIndex k (names ! k))
                         (filter (\<lambda>k. ?g k < 0) [Suc i..<Suc i + length ps])"
        by (simp only: list.map append_Cons append_Nil append_assoc)
      with step r show ?thesis by (simp only:)
    qed
    have c: "\<forall>j<length v0. (\<forall>k\<in>{i..<i + length (p # ps)}. ?g k \<noteq> int j) \<longrightarrow> v ! j = v0 ! j"
      using keep by (simp add: rng)
    have d: "\<forall>k\<in>{i..<i + length (p # ps)}. 0 \<le> ?g k \<longrightarrow>
               (\<forall>k'\<in>{Suc k..<i + length (p # ps)}. ?g k' \<noteq> ?g k)
               \<longrightarrow> v ! nat (?g k) = (p # ps) ! (k - i)"
    proof (intro ballI impI)
      fix k assume k: "k \<in> {i..<i + length (p # ps)}" and pos: "0 \<le> ?g k"
        and later: "\<forall>k'\<in>{Suc k..<i + length (p # ps)}. ?g k' \<noteq> ?g k"
      from k pos False have k': "k \<in> {Suc i..<Suc i + length ps}"
        by (cases "k = i") auto
      from later have "\<forall>k'\<in>{Suc k..<Suc i + length ps}. ?g k' \<noteq> ?g k" by simp
      with hit k' pos have "v ! nat (?g k) = ps ! (k - Suc i)" by blast
      moreover from k' have "k - i = Suc (k - Suc i)" by auto
      then have "(p # ps) ! (k - i) = ps ! (k - Suc i)" by simp
      ultimately show "v ! nat (?g k) = (p # ps) ! (k - i)" by simp
    qed
    from a len c d show ?thesis by blast
  qed
qed


lemma eigen_resize_length: "length (eigen_resize uninit v n) = n"
  by (simp add: eigen_resize_def)

section \<open>Unknown joint names in an update\<close>

text \<open>
  Claim C4. An update whose \<open>position\<close> array is not longer than its \<open>name\<close> array,
  applied to an object whose joint index has \<open>num_joints\<close> entries, always runs to the
  end. For each entry whose name has no index, exactly one error line is printed, carrying
  the position of the entry and the name, in input order, and nothing is written. Each
  entry whose name has an index is written at that index: the vector holds its value
  unless a later entry names the same index. A row that no entry names keeps the contents
  the vector had after \<^verbatim>\<open>resize\<close>.
\<close>

theorem GetInitialJoints_unknown_names_reported_and_skipped:
  assumes wf_msg: "length (js_position u) \<le> length (js_name u)"
      and wf_idx: "length (joint_map s) = num_joints s"
  shows "\<exists>v. GetInitialJoints uninit s u jnt_angles =
           Inr (v, ros_log s @ map (\<lambda>i. ErrNoJointIndex i (js_name u ! i))
                  (filter (\<lambda>i. GetJointIndex s (js_name u ! i) < 0)
                     [0..<length (js_position u)]))
         \<and> length v = num_joints s
         \<and> (\<forall>i<length (js_position u). 0 \<le> GetJointIndex s (js_name u ! i) \<longrightarrow>
              (\<forall>k\<in>{Suc i..<length (js_position u)}.
                  GetJointIndex s (js_name u ! k) \<noteq> GetJointIndex s (js_name u ! i))
              \<longrightarrow> v ! nat (GetJointIndex s (js_name u ! i)) = js_position u ! i)
         \<and> (\<forall>j<num_joints s.
              (\<forall>i<length (js_position u). GetJointIndex s (js_name u ! i) \<noteq> int j)
              \<longrightarrow> v ! j = eigen_resize uninit jnt_angles (num_joints s) ! j)"
proof -
  let ?v0 = "eigen_resize uninit jnt_angles (num_joints s)"
  have l0: "length ?v0 = length (joint_map s)"
    using wf_idx by (simp add: eigen_resize_length)
  have "0 + length (js_position u) \<le> length (js_name u)"
    using wf_msg by simp
  from GetInitialJoints_loop_char [OF this l0, of "ros_log s"]
  show ?thesis
    unfolding GetInitialJoints_def
    by (auto simp: eigen_resize_length wf_idx)
qed

lemma ex_GetJointIndex:
  "GetJointIndex ex_state nm = (if nm = ''j1'' then 0 else if nm = ''j2'' then 1 else - 1)"
  by (simp add: GetJointIndex_eq ex_state_def)

text \<open>
  On the example robot the update \<open>j1, bogus, j2\<close> succeeds, prints the one error line for
  position 1 and name \<open>bogus\<close>, and both valid entries are in the vector.
\<close>

theorem GetInitialJoints_unknown_names_witness:
  "length (js_position ex_update_unknown) \<le> length (js_name ex_update_unknown) \<and>
   length (joint_map ex_state) = num_joints ex_state \<and>
   GetInitialJoints (\<lambda>i. 0) ex_state ex_update_unknown [] =
     Inr ([1/2, 1/4], [InfoChainCreated, ErrNoJointIndex 1 ''bogus''])"
proof -
  have h1: "length (js_position ex_update_unknown) \<le> length (js_name ex_update_unknown)"
    by (simp add: ex_update_unknown_def)
  have h2: "length (joint_map ex_state) = num_joints ex_state"
    by (simp add: ex_state_def num_joints_def ex_tree_def)
  from GetInitialJoints_unknown_names_reported_and_skipped [OF h1 h2, of "\<lambda>i. 0" "[]"]
  obtain v where
    r: "GetInitialJoints (\<lambda>i. 0) ex_state ex_update_unknown [] =
          Inr (v, ros_log ex_state @ map (\<lambda>i. ErrNoJointIndex i (js_name ex_update_unknown ! i))
                  (filter (\<lambda>i. GetJointIndex ex_state (js_name ex_update_unknown ! i) < 0)
                     [0..<length (js_position ex_update_unknown)]))"
    and len: "length v = num_joints ex_state"
    and hit: "\<forall>i<length (js_position ex_update_unknown).
              0 \<le> GetJointIndex ex_state (js_name ex_update_unknown ! i) \<longrightarrow>
              (\<forall>k\<in>{Suc i..<length (js_position ex_update_unknown)}.
                  GetJointIndex ex_state (js_name ex_update_unknown ! k)
                    \<noteq> GetJointIndex ex_state (js_name ex_update_unknown ! i))
              \<longrightarrow> v ! nat (GetJointIndex ex_state (js_name ex_update_unknown ! i))
                    = js_position ex_update_unknown ! i"
    by blast
  have rl: "ros_log ex_state = [InfoChainCreated]"
    by (simp add: ex_state_def)
  have lg: "ros_log ex_state @ map (\<lambda>i. ErrNoJointIndex i (js_name ex_update_unknown ! i))
                  (filter (\<lambda>i. GetJointIndex ex_state (js_name ex_update_unknown ! i) < 0)
                     [0..<length (js_position ex_update_unknown)])
            = [InfoChainCreated, ErrNoJointIndex 1 ''bogus'']"
    by (simp add: ex_update_unknown_def ex_GetJointIndex upt_rec rl)
  have "length v = 2" using len by (simp add: num_joints_def ex_state_def ex_tree_def)
  moreover have "v ! 0 = 1/2"
    using hit [THEN spec, of 0]
    by (auto simp: ex_update_unknown_def ex_GetJointIndex atLeastLessThan_upt upt_rec)
  moreover have "v ! 1 = 1/4"
    using hit [THEN spec, of 2]
    by (auto simp: ex_update_unknown_def ex_GetJointIndex atLeastLessThan_upt upt_rec)
  ultimately have "v = [1/2, 1/4]"
    by (auto simp: list_eq_iff_nth_eq less_Suc_eq numeral_2_eq_2)
  with r lg h1 h2 show ?thesis by simp
qed

section \<open>What each step of a call changes\<close>

lemma SetCameraTransform_fields:
  assumes "SetCameraTransform s = Inr s'"
  shows "jnt_array s' = jnt_array s" "joint_map s' = joint_map s"
        "part_mesh_map s' = part_mesh_map s" "segment_map s' = segment_map s"
        "tree_solver s' = tree_solver s" "frame_map s' = frame_map s"
        "kin_tree s' = kin_tree s" "chain_solver s' = chain_solver s"
        "base_2_cam s' = base_2_cam s" "urdf s' = urdf s"
        "\<exists>q. cam_frame s' = snd (chain_solver s q (cam_frame s))"
  using assms
  by (auto simp: SetCameraTransform_def Let_def split: sum.splits prod.splits)

lemma link_step_fields [simp]:
  "jnt_array (link_step K e s) = jnt_array s"
  "joint_map (link_step K e s) = joint_map s"
  "part_mesh_map (link_step K e s) = part_mesh_map s"
  "segment_map (link_step K e s) = segment_map s"
  "tree_solver (link_step K e s) = tree_solver s"
  "cam_frame (link_step K e s) = cam_frame s"
  "kin_tree (link_step K e s) = kin_tree s"
  "chain_solver (link_step K e s) = chain_solver s"
  "base_2_cam (link_step K e s) = base_2_cam s"
  "urdf (link_step K e s) = urdf s"
  by (simp_all add: link_step_def Let_def)

lemma link_loop_fields [simp]:
  "jnt_array (link_loop K segs s) = jnt_array s"
  "joint_map (link_loop K segs s) = joint_map s"
  "part_mesh_map (link_loop K segs s) = part_mesh_map s"
  "segment_map (link_loop K segs s) = segment_map s"
  "tree_solver (link_loop K segs s) = tree_solver s"
  "cam_frame (link_loop K segs s) = cam_frame s"
  "kin_tree (link_loop K segs s) = kin_tree s"
  "chain_solver (link_loop K segs s) = chain_solver s"
  "base_2_cam (link_loop K segs s) = base_2_cam s"
  "urdf (link_loop K segs s) = urdf s"
  by (induction segs arbitrary: s; simp)+

text \<open>What the loop of ComputeLinkTransforms leaves in the frame map and in the log.\<close>

lemma link_loop_frame_map:
  "frame_map (link_loop K segs s) nm =
     (if nm \<in> set (part_mesh_map s) \<and> nm \<in> (\<lambda>x. seg_name (segment (snd x))) ` set segs
      then Some (frame_mul K (cam_frame s)
                  (snd (tree_solver s (jnt_array s) (frame_default K) nm)))
      else frame_map s nm)"
proof (induction segs arbitrary: s)
  case Nil
  then show ?case by simp
next
  case (Cons x segs)
  have "frame_map (link_step K (snd x) s) nm =
          (if nm \<in> set (part_mesh_map s) \<and> nm = seg_name (segment (snd x))
           then Some (frame_mul K (cam_frame s)
                  (snd (tree_solver s (jnt_array s) (frame_default K) nm)))
           else frame_map s nm)"
    by (auto simp: link_step_def Let_def std_find_mem)
  then show ?case
    using Cons.IH [of "link_step K (snd x) s"] by auto
qed

lemma link_loop_ros_log:
  "ros_log (link_loop K segs s) =
     ros_log s @ map ErrTreeSolver
       (filter (\<lambda>nm. nm \<in> set (part_mesh_map s) \<and>
                      fst (tree_solver s (jnt_array s) (frame_default K) nm) < 0)
               (map (\<lambda>x. seg_name (segment (snd x))) segs))"
proof (induction segs arbitrary: s)
  case Nil
  then show ?case by simp
next
  case (Cons x segs)
  have "ros_log (link_step K (snd x) s) =
          ros_log s @ map ErrTreeSolver
            (filter (\<lambda>nm. nm \<in> set (part_mesh_map s) \<and>
                      fst (tree_solver s (jnt_array s) (frame_default K) nm) < 0)
               [seg_name (segment (snd x))])"
    by (auto simp: link_step_def Let_def std_find_mem)
  then show ?case
    using Cons.IH [of "link_step K (snd x) s"] by simp
qed

lemma tf_loop_all_present:
  "\<forall>x\<in>set segs. seg_name (segment (snd x)) \<in> set (part_mesh_map s) \<longrightarrow>
       frame_map s (seg_name (segment (snd x))) \<noteq> None \<Longrightarrow>
   tf_loop K segs (s, out) =
     (s, out @ map (\<lambda>x. transformKDLToEigen K (the (frame_map s (seg_name (segment (snd x))))))
                (filter (\<lambda>x. seg_name (segment (snd x)) \<in> set (part_mesh_map s)) segs))"
proof (induction segs arbitrary: out)
  case Nil
  then show ?case by simp
next
  case (Cons x segs)
  have "tf_step K (snd x) (s, out) =
          (s, out @ map (\<lambda>x. transformKDLToEigen K (the (frame_map s (seg_name (segment (snd x))))))
                (filter (\<lambda>x. seg_name (segment (snd x)) \<in> set (part_mesh_map s)) [x]))"
    using Cons.prems by (auto simp: tf_step_def Let_def std_find_mem)
  then show ?case using Cons by simp
qed

lemma InitKDLData_Inr:
  assumes "InitKDLData K uninit s u = Inr s'"
  obtains v lg s1 where
    "GetInitialJoints uninit s u [] = Inr (v, lg)"
    "SetCameraTransform (s\<lparr>jnt_array := v, ros_log := lg\<rparr>) = Inr s1"
    "s' = ComputeLinkTransforms K s1"
  using assms by (auto simp: InitKDLData_def split: sum.splits prod.splits)

lemma ex_select: "GetPartMeshPaths ex_state [] = Some (Inr ([''base.stl'', ''base.stl'', ''base.stl''], ex_selected))"
  by (simp add: GetPartMeshPaths_def ex_state_def ex_urdf_def ex_link_def walk_to_root.simps
       mesh_step_def substr_last4_def ex_selected_def)

lemma ex_ctor:
  "RobotState ex_lib ex_urdf ex_tree (True, ex_chain) ex_chain_solver ex_tree_solver
     = Inr ex_state"
  by (simp add: RobotState_def ex_state_def ex_tree_def ex_seg_def joint_index_step_def
       ex_urdf_def ex_joint_def ex_lib_def numeral_2_eq_2)

lemmas ex_defs = ex_state_def ex_selected_def ex_tree_def ex_seg_def ex_chain_def ex_lib_def
  ex_chain_solver_def ex_tree_solver_def ex_tree_solver_failing_def ex_failing_def ex_update_j1_def ex_update_j2_def ex_update_j1_j2_def

lemmas run_defs = InitKDLData_def GetInitialJoints_def eigen_resize_def num_joints_def
  GetJointIndex_eq SetCameraTransform_def chain_step_def ComputeLinkTransforms_def link_step_def
  GetTransforms_body_def tf_step_def Let_def upt_rec


lemma GetTransforms_body_Inr:
  assumes "GetTransforms_body K uninit s js tfs noisy = Inr (s', out)"
  shows "InitKDLData K uninit s js = Inr s'"
    and "out = tfs @ map (\<lambda>x. transformKDLToEigen K (the (frame_map s' (seg_name (segment (snd x))))))
                (filter (\<lambda>x. seg_name (segment (snd x)) \<in> set (part_mesh_map s')) (segment_map s'))"
proof -
  from assms obtain s1 where i: "InitKDLData K uninit s js = Inr s1"
    and t: "tf_loop K (segment_map s1) (s1, tfs) = (s', out)"
    by (auto simp: GetTransforms_body_def split: sum.splits)
  from i obtain s0 where s1: "s1 = ComputeLinkTransforms K s0"
    by (rule InitKDLData_Inr)
  have "\<forall>x\<in>set (segment_map s1). seg_name (segment (snd x)) \<in> set (part_mesh_map s1) \<longrightarrow>
          frame_map s1 (seg_name (segment (snd x))) \<noteq> None"
    unfolding s1 ComputeLinkTransforms_def by (auto simp: link_loop_frame_map)
  from tf_loop_all_present [OF this, of K tfs] t
  have "s' = s1" and "out = tfs @ map (\<lambda>x. transformKDLToEigen K (the (frame_map s1 (seg_name (segment (snd x))))))
                (filter (\<lambda>x. seg_name (segment (snd x)) \<in> set (part_mesh_map s1)) (segment_map s1))"
    by simp_all
  with i show "InitKDLData K uninit s js = Inr s'"
    and "out = tfs @ map (\<lambda>x. transformKDLToEigen K (the (frame_map s' (seg_name (segment (snd x))))))
                (filter (\<lambda>x. seg_name (segment (snd x)) \<in> set (part_mesh_map s')) (segment_map s'))"
    by simp_all
qed

lemma InitKDLData_frames:
  assumes "InitKDLData K uninit s js = Inr s'"
  shows "part_mesh_map s' = part_mesh_map s" "segment_map s' = segment_map s"
    "joint_map s' = joint_map s" "tree_solver s' = tree_solver s"
    "\<exists>q. cam_frame s' = snd (chain_solver s q (cam_frame s))"
    "frame_map s' nm =
       (if nm \<in> set (part_mesh_map s) \<and> nm \<in> (\<lambda>x. seg_name (segment (snd x))) ` set (segment_map s)
        then Some (frame_mul K (cam_frame s')
                    (snd (tree_solver s (jnt_array s') (frame_default K) nm)))
        else frame_map s nm)"
proof -
  from assms obtain v lg s1 where
    sc: "SetCameraTransform (s\<lparr>jnt_array := v, ros_log := lg\<rparr>) = Inr s1"
    and s': "s' = ComputeLinkTransforms K s1"
    by (rule InitKDLData_Inr)
  note f = SetCameraTransform_fields [OF sc]
  show "part_mesh_map s' = part_mesh_map s" "segment_map s' = segment_map s"
    "joint_map s' = joint_map s" "tree_solver s' = tree_solver s"
    using f by (simp_all add: s' ComputeLinkTransforms_def)
  show "\<exists>q. cam_frame s' = snd (chain_solver s q (cam_frame s))"
    using f(11) by (simp add: s' ComputeLinkTransforms_def)
  show "frame_map s' nm =
       (if nm \<in> set (part_mesh_map s) \<and> nm \<in> (\<lambda>x. seg_name (segment (snd x))) ` set (segment_map s)
        then Some (frame_mul K (cam_frame s')
                    (snd (tree_solver s (jnt_array s') (frame_default K) nm)))
        else frame_map s nm)"
    using f by (simp add: s' ComputeLinkTransforms_def link_loop_frame_map)
qed



section \<open>The stored transform\<close>


lemma ex_GetTransforms_body:
  "\<exists>s'. GetTransforms_body ex_lib (\<lambda>i. 0) ex_selected ex_update_j1 [7] False = Inr (s', [7, - (1/2)])"
  by (simp add: ex_defs run_defs)


section \<open>A tree-solver error\<close>

text \<open>
  Claim C3, as the code has it. \<^verbatim>\<open>ComputeLinkTransforms\<close> prints one error line for
  every tracked segment for which the tree solver returns a negative status, in the order
  of the segment map, and goes on with the remaining segments. Every tracked segment, the
  failed ones included, gets its frame-map entry overwritten with the camera frame times
  the frame the solver left in its output argument.
\<close>

theorem ComputeLinkTransforms_reports_error_and_stores_all:
  "ros_log (ComputeLinkTransforms K s) =
     ros_log s @ map ErrTreeSolver
       (filter (\<lambda>nm. nm \<in> set (part_mesh_map s) \<and>
                      fst (tree_solver s (jnt_array s) (frame_default K) nm) < 0)
               (map (\<lambda>x. seg_name (segment (snd x))) (segment_map s)))
   \<and> (\<forall>x\<in>set (segment_map s). seg_name (segment (snd x)) \<in> set (part_mesh_map s) \<longrightarrow>
         frame_map (ComputeLinkTransforms K s) (seg_name (segment (snd x))) =
           Some (frame_mul K (cam_frame s)
                  (snd (tree_solver s (jnt_array s) (frame_default K)
                         (seg_name (segment (snd x)))))))"
  unfolding ComputeLinkTransforms_def
  by (auto simp: link_loop_ros_log link_loop_frame_map)

text \<open>
  The theorem at the example object whose tree solver fails: the error line for \<open>base\<close>
  is printed and the entry for \<open>base\<close> is written.
\<close>

theorem ComputeLinkTransforms_reports_error_witness:
  "hd (segment_map ex_failing) \<in> set (segment_map ex_failing) \<and>
   seg_name (segment (snd (hd (segment_map ex_failing)))) \<in> set (part_mesh_map ex_failing) \<and>
   fst (tree_solver ex_failing (jnt_array ex_failing) (frame_default ex_lib) ''base'') < 0 \<and>
   ros_log (ComputeLinkTransforms ex_lib ex_failing) = [InfoChainCreated, ErrTreeSolver ''base''] \<and>
   frame_map (ComputeLinkTransforms ex_lib ex_failing) ''base'' = Some 0"
proof -
  have h2: "hd (segment_map ex_failing) \<in> set (segment_map ex_failing)"
    by (simp add: ex_defs)
  have h3: "seg_name (segment (snd (hd (segment_map ex_failing)))) \<in> set (part_mesh_map ex_failing)"
    by (simp add: ex_defs)
  have f: "fst (tree_solver ex_failing (jnt_array ex_failing) (frame_default ex_lib) ''base'') < 0"
    by (simp add: ex_defs)
  note t = ComputeLinkTransforms_reports_error_and_stores_all [of ex_lib ex_failing]
  from t have "ros_log (ComputeLinkTransforms ex_lib ex_failing) = [InfoChainCreated, ErrTreeSolver ''base'']"
    by (simp add: ex_defs)
  moreover from t [THEN conjunct2, rule_format, OF h2 h3]
  have "frame_map (ComputeLinkTransforms ex_lib ex_failing) ''base'' = Some 0"
    by (simp add: ex_defs)
  ultimately show ?thesis using h2 h3 f by blast
qed

text \<open>
  Claim C3 as stated fails: the entry of the link whose solve failed is not left
  untouched. Before the call the frame map holds \<open>5\<close> for \<open>base\<close>; the tree solver
  reports an error for \<open>base\<close>; the error line is printed; after the call the entry
  is \<open>- 1/2\<close>.
\<close>

theorem failed_link_entry_overwritten_counterexample:
  "frame_map ex_failing ''base'' = Some 5 \<and>
   (case InitKDLData ex_lib (\<lambda>i. 0) ex_failing ex_update_j1 of
      Inl f \<Rightarrow> False
    | Inr s' \<Rightarrow>
        fst (tree_solver ex_failing (jnt_array s') (frame_default ex_lib) ''base'') < 0 \<and>
        ErrTreeSolver ''base'' \<in> set (ros_log s') \<and>
        frame_map s' ''base'' = Some (- (1/2)))"
  by (simp add: ex_defs run_defs)

section \<open>The sequence of transforms\<close>

text \<open>
  Claim C9 at an input where the code departs from it. The example object is what the
  constructor builds for the example robot. Selection yields three mesh paths, one per
  link. The retrieval that follows builds a single transform in its own vector, and the
  caller's vector is still empty after the call: no transform reaches the caller, and
  there is none for the mesh paths at positions 1 and 2.
\<close>

theorem GetTransforms_one_transform_for_three_mesh_paths:
  "RobotState ex_lib ex_urdf ex_tree (True, ex_chain) ex_chain_solver ex_tree_solver
     = Inr ex_state \<and>
   GetPartMeshPaths ex_state [] =
     Some (Inr ([''base.stl'', ''base.stl'', ''base.stl''], ex_selected)) \<and>
   map_sum id snd (GetTransforms_body ex_lib (\<lambda>i. 0) ex_selected ex_update_j1 [] False) =
     Inr [- (1/2)] \<and>
   map_sum id snd (GetTransforms ex_lib (\<lambda>i. 0) ex_selected ex_update_j1 [] False) = Inr []"
  by (simp add: ex_select ex_ctor) (simp add: GetTransforms_def ex_defs run_defs)

section \<open>The caller's vector\<close>

text \<open>
  Claim C10. Whatever the joint state and whatever the caller's vector holds, after a
  call of \<^verbatim>\<open>GetTransforms\<close> that returns the caller's vector is what it was before:
  the parameter is passed by value and the transforms are pushed onto the copy.
\<close>

theorem GetTransforms_leaves_caller_vector:
  "GetTransforms K uninit s js tfs noisy = Inr (s', tfs') \<Longrightarrow> tfs' = tfs"
  by (auto simp: GetTransforms_def split: sum.splits)

text \<open>
  On the example robot the body ends with \<open>[7, - 1/2]\<close> in its own vector while the
  caller's vector is \<open>[7]\<close> as before.
\<close>

theorem GetTransforms_leaves_caller_vector_witness:
  "\<exists>s'. GetTransforms ex_lib (\<lambda>i. 0) ex_selected ex_update_j1 [7] False = Inr (s', [7]) \<and>
        GetTransforms_body ex_lib (\<lambda>i. 0) ex_selected ex_update_j1 [7] False = Inr (s', [7, - (1/2)])"
proof -
  from ex_GetTransforms_body obtain s' where
    b: "GetTransforms_body ex_lib (\<lambda>i. 0) ex_selected ex_update_j1 [7] False = Inr (s', [7, - (1/2)])"
    by blast
  then obtain tfs' where
    g: "GetTransforms ex_lib (\<lambda>i. 0) ex_selected ex_update_j1 [7] False = Inr (s', tfs')"
    by (simp add: GetTransforms_def)
  from GetTransforms_leaves_caller_vector [OF g] g b show ?thesis by blast
qed

section \<open>The dense joint vector\<close>





section \<open>The chain solve\<close>






section \<open>Link selection\<close>

lemma walk_to_root_result:
  assumes a: "walk_to_root heap gr l = Some y"
  shows "case y of Inl f \<Rightarrow> True | Inr t \<Rightarrow> link_name (heap t) = gr"
proof (rule walk_to_root.raw_induct
    [where P = "\<lambda>heap gr l y. (case y of Inl f \<Rightarrow> True | Inr t \<Rightarrow> link_name (heap t) = gr)",
     OF _ a])
  fix walk :: "(link_ptr \<Rightarrow> urdf_link) \<Rightarrow> string \<Rightarrow> link_ptr \<Rightarrow> (fault + link_ptr) option"
    and heap gr l y
  assume IH: "\<And>h g b y. walk h g b = Some y \<Longrightarrow>
                (case y of Inl f \<Rightarrow> True | Inr t \<Rightarrow> link_name (h t) = g)"
    and step: "(if link_name (heap l) \<noteq> gr
                then case getParent (heap l) of None \<Rightarrow> Some (Inl NullDeref)
                     | Some p \<Rightarrow> walk heap gr p
                else Some (Inr l)) = Some y"
  show "case y of Inl f \<Rightarrow> True | Inr t \<Rightarrow> link_name (heap t) = gr"
  proof (cases "link_name (heap l) \<noteq> gr")
    case True
    show ?thesis
    proof (cases "getParent (heap l)")
      case None
      with True step show ?thesis by auto
    next
      case (Some p)
      with True step have "walk heap gr p = Some y" by simp
      then show ?thesis by (rule IH)
    qed
  next
    case False
    with step show ?thesis by auto
  qed
qed

lemma walk_to_root_named:
  "walk_to_root heap gr l = Some (Inr t) \<Longrightarrow> link_name (heap t) = gr"
  using walk_to_root_result [of heap gr l "Inr t"] by simp



lemma mesh_step_Inr:
  assumes "mesh_step li t (paths, s) = Inr (paths', s')"
  shows "part_mesh_map s' = part_mesh_map s @ (if recognized_mesh t then [link_name t] else [])"
    and "length paths' = length paths + (if recognized_mesh t then 1 else 0)"
    and "joint_map s' = joint_map s"
  using assms
  by (auto simp: mesh_step_def recognized_mesh_def
      split: option.splits geometry.splits sum.splits if_splits)

lemma mesh_loop_Inr:
  "mesh_loop heap gr ls (paths, s) = Some (Inr (paths', s')) \<Longrightarrow>
   \<exists>ts. list_all2 (\<lambda>l t. walk_to_root heap gr l = Some (Inr t)) ls ts \<and>
        part_mesh_map s' = part_mesh_map s @
          replicate (length (filter (\<lambda>t. recognized_mesh (heap t)) ts)) gr \<and>
        length paths' = length paths + length (filter (\<lambda>t. recognized_mesh (heap t)) ts) \<and>
        joint_map s' = joint_map s"
proof (induction ls arbitrary: paths s)
  case Nil
  then show ?case by simp
next
  case (Cons l ls)
  from Cons.prems obtain t paths1 s1 where
    w: "walk_to_root heap gr l = Some (Inr t)"
    and st: "mesh_step (heap l) (heap t) (paths, s) = Inr (paths1, s1)"
    and rest: "mesh_loop heap gr ls (paths1, s1) = Some (Inr (paths', s'))"
    by (auto split: option.splits sum.splits)
  from Cons.IH [OF rest] obtain ts where
    a: "list_all2 (\<lambda>l t. walk_to_root heap gr l = Some (Inr t)) ls ts"
    and b: "part_mesh_map s' = part_mesh_map s1 @
          replicate (length (filter (\<lambda>t. recognized_mesh (heap t)) ts)) gr"
    and c: "length paths' = length paths1 + length (filter (\<lambda>t. recognized_mesh (heap t)) ts)"
    and d: "joint_map s' = joint_map s1"
    by blast
  have nm: "link_name (heap t) = gr" using w by (rule walk_to_root_named)
  note m = mesh_step_Inr [OF st]
  have "list_all2 (\<lambda>l t. walk_to_root heap gr l = Some (Inr t)) (l # ls) (t # ts)"
    using a w by simp
  moreover have "part_mesh_map s' = part_mesh_map s @
          replicate (length (filter (\<lambda>t. recognized_mesh (heap t)) (t # ts))) gr"
    using b m(1) nm by (simp add: replicate_append_same)
  moreover have "length paths' = length paths +
          length (filter (\<lambda>t. recognized_mesh (heap t)) (t # ts))"
    using c m(2) by simp
  moreover have "joint_map s' = joint_map s" using d m(3) by simp
  ultimately show ?case by blast
qed


text \<open>
  Claim C6 at an input where the code departs from it. Link \<open>l2\<close> of the example robot
  has no mesh, its parent \<open>l1\<close> has the mesh \<open>l1.dae\<close>. The walk the claim describes
  stops at \<open>l1\<close>. The walk of the code passes \<open>l1\<close> and stops at \<open>base\<close>; the mesh
  test and the recorded key use the link the walk stopped at, so the root's name is
  recorded once per link and no key \<open>l1\<close> is recorded.
\<close>

theorem selection_records_root_for_every_link:
  "RobotState ex_lib ex_urdf ex_tree (True, ex_chain) ex_chain_solver ex_tree_solver
     = Inr ex_state \<and>
   spec_walk_to_mesh_or_root ex_link ''base'' 2 = Some (Inr 1) \<and>
   link_name (ex_link 1) = ''l1'' \<and>
   walk_to_root ex_link ''base'' 2 = Some (Inr 0) \<and>
   link_name (ex_link 0) = ''base'' \<and>
   map_option (map_sum id (\<lambda>r. part_mesh_map (snd r))) (GetPartMeshPaths ex_state [])
     = Some (Inr [''base'', ''base'', ''base''])"
  by (simp add: ex_select ex_ctor)
     (simp add: spec_walk_to_mesh_or_root.simps walk_to_root.simps recognized_mesh_def
        substr_last4_def ex_link_def ex_selected_def)





section \<open>The joint index\<close>

lemma joint_index_step_movable:
  assumes "kj_type (seg_joint (segment e)) \<noteq> JointNone"
      and "getJoint (urdf s) (kj_name (seg_joint (segment e))) = Some j"
      and "uj_name j = kj_name (seg_joint (segment e))"
      and "uj_type j \<noteq> UNKNOWN" "uj_type j \<noteq> FIXED" "limits j = Some jl"
      and "q_nr e < length (joint_map s)"
      and "length (lower_limit s) = length (joint_map s)"
      and "length (upper_limit s) = length (joint_map s)"
  shows "joint_index_step e s =
           Inr (s\<lparr>joint_map := (joint_map s)[q_nr e := kj_name (seg_joint (segment e))],
                  lower_limit := (lower_limit s)[q_nr e := lower jl],
                  upper_limit := (upper_limit s)[q_nr e := upper jl]\<rparr>)"
  using assms by (simp add: joint_index_step_def)

lemma joint_index_step_fixed:
  "kj_type (seg_joint (segment e)) = JointNone \<Longrightarrow> joint_index_step e s = Inr s"
  by (simp add: joint_index_step_def)

lemma joint_index_loop_char:
  assumes "\<forall>e\<in>set (filter (\<lambda>e. kj_type (seg_joint (segment e)) \<noteq> JointNone) (map snd segs)).
             urdf_has_joint (urdf s) e \<and> q_nr e < length (joint_map s)"
      and "distinct (map q_nr (filter (\<lambda>e. kj_type (seg_joint (segment e)) \<noteq> JointNone)
                                     (map snd segs)))"
      and "length (lower_limit s) = length (joint_map s)"
      and "length (upper_limit s) = length (joint_map s)"
  shows "\<exists>s'. joint_index_loop segs s = Inr s' \<and>
              length (joint_map s') = length (joint_map s) \<and>
              s' = s\<lparr>joint_map := joint_map s', lower_limit := lower_limit s',
                     upper_limit := upper_limit s'\<rparr> \<and>
              (\<forall>e\<in>set (filter (\<lambda>e. kj_type (seg_joint (segment e)) \<noteq> JointNone) (map snd segs)).
                  joint_map s' ! q_nr e = kj_name (seg_joint (segment e))) \<and>
              (\<forall>i<length (joint_map s).
                  i \<notin> q_nr ` set (filter (\<lambda>e. kj_type (seg_joint (segment e)) \<noteq> JointNone)
                                        (map snd segs))
                  \<longrightarrow> joint_map s' ! i = joint_map s ! i)"
  using assms
proof (induction segs arbitrary: s)
  case Nil
  then show ?case by simp
next
  case (Cons x segs)
  let ?mv = "\<lambda>e. kj_type (seg_joint (segment e)) \<noteq> JointNone"
  let ?e = "snd x"
  show ?case
  proof (cases "?mv ?e")
    case False
    then have st: "joint_index_step ?e s = Inr s"
      by (simp add: joint_index_step_fixed)
    from Cons.prems False have
      p1: "\<forall>e\<in>set (filter ?mv (map snd segs)). urdf_has_joint (urdf s) e \<and> q_nr e < length (joint_map s)"
      and p2: "distinct (map q_nr (filter ?mv (map snd segs)))"
      by simp_all
    from Cons.IH [OF p1 p2 Cons.prems(3,4)] st False show ?thesis by simp
  next
    case True
    from Cons.prems(1) True have hj: "urdf_has_joint (urdf s) ?e" and q: "q_nr ?e < length (joint_map s)"
      by simp_all
    from hj obtain j jl where
      gj: "getJoint (urdf s) (kj_name (seg_joint (segment ?e))) = Some j"
      and jn: "uj_name j = kj_name (seg_joint (segment ?e))"
      and jt: "uj_type j \<noteq> UNKNOWN" "uj_type j \<noteq> FIXED" and jl: "limits j = Some jl"
      by (auto simp: urdf_has_joint_def split: option.splits)
    let ?s1 = "s\<lparr>joint_map := (joint_map s)[q_nr ?e := kj_name (seg_joint (segment ?e))],
                  lower_limit := (lower_limit s)[q_nr ?e := lower jl],
                  upper_limit := (upper_limit s)[q_nr ?e := upper jl]\<rparr>"
    have st: "joint_index_step ?e s = Inr ?s1"
      using True gj jn jt jl q Cons.prems(3,4) by (rule joint_index_step_movable)
    from Cons.prems True have
      p1: "\<forall>e\<in>set (filter ?mv (map snd segs)). urdf_has_joint (urdf ?s1) e \<and> q_nr e < length (joint_map ?s1)"
      and p2: "distinct (map q_nr (filter ?mv (map snd segs)))"
      and fresh: "q_nr ?e \<notin> q_nr ` set (filter ?mv (map snd segs))"
      by auto
    have p3: "length (lower_limit ?s1) = length (joint_map ?s1)"
      and p4: "length (upper_limit ?s1) = length (joint_map ?s1)"
      using Cons.prems(3,4) by simp_all
    from Cons.IH [OF p1 p2 p3 p4] obtain s' where
      r: "joint_index_loop segs ?s1 = Inr s'"
      and len: "length (joint_map s') = length (joint_map ?s1)"
      and rest: "s' = ?s1\<lparr>joint_map := joint_map s', lower_limit := lower_limit s',
                     upper_limit := upper_limit s'\<rparr>"
      and hit: "\<forall>e\<in>set (filter ?mv (map snd segs)).
                  joint_map s' ! q_nr e = kj_name (seg_joint (segment e))"
      and keep: "\<forall>i<length (joint_map ?s1).
                  i \<notin> q_nr ` set (filter ?mv (map snd segs))
                  \<longrightarrow> joint_map s' ! i = joint_map ?s1 ! i"
      by blast
    have a: "joint_index_loop (x # segs) s = Inr s'" using st r by simp
    have b: "length (joint_map s') = length (joint_map s)" using len by simp
    have c: "s' = s\<lparr>joint_map := joint_map s', lower_limit := lower_limit s',
                     upper_limit := upper_limit s'\<rparr>"
      by (subst rest) simp
    have here: "joint_map s' ! q_nr ?e = kj_name (seg_joint (segment ?e))"
      using keep [rule_format, of "q_nr ?e"] fresh q by simp
    have d: "\<forall>e\<in>set (filter ?mv (map snd (x # segs))).
                  joint_map s' ! q_nr e = kj_name (seg_joint (segment e))"
      using hit here True by auto
    have e: "\<forall>i<length (joint_map s).
                  i \<notin> q_nr ` set (filter ?mv (map snd (x # segs)))
                  \<longrightarrow> joint_map s' ! i = joint_map s ! i"
    proof (intro allI impI)
      fix i assume i: "i < length (joint_map s)"
        and ni: "i \<notin> q_nr ` set (filter ?mv (map snd (x # segs)))"
      from ni True have "i \<noteq> q_nr ?e" and "i \<notin> q_nr ` set (filter ?mv (map snd segs))"
        by auto
      with keep i show "joint_map s' ! i = joint_map s ! i" by simp
    qed
    from a b c d e show ?thesis by blast
  qed
qed

lemma distinct_cover:
  assumes "distinct (map f xs)" and "\<forall>x\<in>set xs. f x < length xs"
  shows "f ` set xs = {..<length xs}"
proof -
  have "card (f ` set xs) = length xs"
    using assms(1) by (metis distinct_card length_map set_map)
  moreover have "f ` set xs \<subseteq> {..<length xs}" using assms(2) by auto
  ultimately show ?thesis by (simp add: card_subset_eq)
qed

lemma GetJointIndex_distinct:
  "distinct (joint_map s) \<Longrightarrow> i < length (joint_map s) \<Longrightarrow>
   GetJointIndex s (joint_map s ! i) = int i"
  by (simp add: GetJointIndex_eq std_find_distinct)


lemma GetTransforms_joint_map:
  "GetTransforms K uninit s js tfs noisy = Inr (s', tfs') \<Longrightarrow> joint_map s' = joint_map s"
proof -
  assume "GetTransforms K uninit s js tfs noisy = Inr (s', tfs')"
  then obtain out where "GetTransforms_body K uninit s js tfs noisy = Inr (s', out)"
    by (auto simp: GetTransforms_def split: sum.splits)
  then have "InitKDLData K uninit s js = Inr s'"
    by (rule GetTransforms_body_Inr)
  then show ?thesis by (rule InitKDLData_frames)
qed

lemma GetPartMeshPaths_joint_map:
  "GetPartMeshPaths s paths = Some (Inr (paths', s')) \<Longrightarrow> joint_map s' = joint_map s"
  by (auto simp: GetPartMeshPaths_def split: option.splits dest: mesh_loop_Inr)

text \<open>
  When the tree is as KDL builds it (its joint counter is the number of segments with a
  joint other than \<^verbatim>\<open>None\<close>, and these segments carry pairwise different
  \<^verbatim>\<open>q_nr\<close> below the counter), joint names are pairwise different and the urdf model
  has every such joint with limits, the constructor succeeds and \<^verbatim>\<open>joint_map_\<close> is a
  bijection between the non-fixed joints and the indices that no later call changes.
\<close>

lemma joint_index_bijection_when_joints_have_limits:
  assumes nr: "tree_NrOfJoints t = length (movable_segments t)"
      and qd: "distinct (map q_nr (movable_segments t))"
      and qr: "\<forall>e\<in>set (movable_segments t). q_nr e < tree_NrOfJoints t"
      and nd: "distinct (map (\<lambda>e. kj_name (seg_joint (segment e))) (movable_segments t))"
      and uj: "\<forall>e\<in>set (movable_segments t). urdf_has_joint u e"
  shows "\<exists>s. RobotState K u t got_chain csolver tsolver = Inr s \<and>
             length (joint_map s) = length (movable_segments t) \<and>
             set (joint_map s) =
               (\<lambda>e. kj_name (seg_joint (segment e))) ` set (movable_segments t) \<and>
             (\<forall>i<length (joint_map s). GetJointIndex s (joint_map s ! i) = int i) \<and>
             (\<forall>uninit js tfs noisy s' tfs'.
                 GetTransforms K uninit s js tfs noisy = Inr (s', tfs')
                 \<longrightarrow> joint_map s' = joint_map s) \<and>
             (\<forall>paths paths' s'.
                 GetPartMeshPaths s paths = Some (Inr (paths', s'))
                 \<longrightarrow> joint_map s' = joint_map s)"
proof -
  let ?N = "tree_NrOfJoints t"
  let ?ms = "movable_segments t"
  let ?nm = "\<lambda>e. kj_name (seg_joint (segment e))"
  let ?s0 = "\<lparr>urdf = u, kin_tree = t, segment_map = getSegments t,
                joint_map = replicate ?N [],
                lower_limit = replicate ?N 0,
                upper_limit = replicate ?N 0,
                base_2_cam = snd got_chain,
                chain_solver = csolver, tree_solver = tsolver,
                part_mesh_map = [], jnt_array = [],
                cam_frame = frame_default K, frame_map = Map.empty, ros_log = []\<rparr>"
  have ms: "?ms = filter (\<lambda>e. kj_type (seg_joint (segment e)) \<noteq> JointNone)
                         (map snd (getSegments t))"
    by (simp add: movable_segments_def)
  have p1: "\<forall>e\<in>set (filter (\<lambda>e. kj_type (seg_joint (segment e)) \<noteq> JointNone)
                              (map snd (getSegments t))).
              urdf_has_joint (urdf ?s0) e \<and> q_nr e < length (joint_map ?s0)"
    using uj qr unfolding ms by simp
  have p2: "distinct (map q_nr (filter (\<lambda>e. kj_type (seg_joint (segment e)) \<noteq> JointNone)
                                     (map snd (getSegments t))))"
    using qd unfolding ms .
  have p3: "length (lower_limit ?s0) = length (joint_map ?s0)"
    and p4: "length (upper_limit ?s0) = length (joint_map ?s0)"
    by simp_all
  from joint_index_loop_char [OF p1 p2 p3 p4] obtain s1 where
    r: "joint_index_loop (getSegments t) ?s0 = Inr s1"
    and len: "length (joint_map s1) = ?N"
    and hit: "\<forall>e\<in>set ?ms. joint_map s1 ! q_nr e = ?nm e"
    unfolding ms by auto
  define s where "s = s1\<lparr>ros_log := ros_log s1 @
                        [if fst got_chain then InfoChainCreated else ErrNoChain]\<rparr>"
  have ctor: "RobotState K u t got_chain csolver tsolver = Inr s"
    using r by (simp add: RobotState_def s_def)
  have jm: "joint_map s = joint_map s1" by (simp add: s_def)
  have lenN: "length (joint_map s) = length ?ms" using len nr jm by simp
  have cover: "q_nr ` set ?ms = {..<length ?ms}"
    using qd qr nr by (intro distinct_cover) simp_all
  have pick: "\<exists>e\<in>set ?ms. q_nr e = i \<and> joint_map s ! i = ?nm e" if "i < length ?ms" for i
  proof -
    from that cover have "i \<in> q_nr ` set ?ms" by simp
    then obtain e where "e \<in> set ?ms" "q_nr e = i" by auto
    with hit jm show ?thesis by auto
  qed
  have inj: "inj_on ?nm (set ?ms)"
    using nd by (simp add: distinct_map)
  have dist: "distinct (joint_map s)"
  proof (unfold distinct_conv_nth, intro allI impI)
    fix i j assume i: "i < length (joint_map s)" and j: "j < length (joint_map s)" and ne: "i \<noteq> j"
    from pick [of i] i lenN obtain ei where ei: "ei \<in> set ?ms" "q_nr ei = i" "joint_map s ! i = ?nm ei"
      by auto
    from pick [of j] j lenN obtain ej where ej: "ej \<in> set ?ms" "q_nr ej = j" "joint_map s ! j = ?nm ej"
      by auto
    show "joint_map s ! i \<noteq> joint_map s ! j"
    proof
      assume "joint_map s ! i = joint_map s ! j"
      with ei ej have "?nm ei = ?nm ej" by simp
      with inj ei(1) ej(1) have "ei = ej" by (auto dest: inj_onD)
      with ei(2) ej(2) ne show False by simp
    qed
  qed
  have names: "set (joint_map s) = ?nm ` set ?ms"
  proof (intro set_eqI iffI)
    fix n assume "n \<in> set (joint_map s)"
    then obtain i where "i < length (joint_map s)" "joint_map s ! i = n"
      by (auto simp: in_set_conv_nth)
    with pick [of i] lenN show "n \<in> ?nm ` set ?ms" by auto
  next
    fix n assume "n \<in> ?nm ` set ?ms"
    then obtain e where e: "e \<in> set ?ms" "n = ?nm e" by auto
    with qr nr have "q_nr e < length (joint_map s)" using lenN by simp
    moreover from hit e jm have "joint_map s ! q_nr e = n" by simp
    ultimately show "n \<in> set (joint_map s)" by (auto simp: in_set_conv_nth)
  qed
  have rt: "\<forall>i<length (joint_map s). GetJointIndex s (joint_map s ! i) = int i"
    using dist by (simp add: GetJointIndex_distinct)
  have st1: "\<forall>uninit js tfs noisy s' tfs'.
                 GetTransforms K uninit s js tfs noisy = Inr (s', tfs')
                 \<longrightarrow> joint_map s' = joint_map s"
    by (auto dest: GetTransforms_joint_map)
  have st2: "\<forall>paths paths' s'.
                 GetPartMeshPaths s paths = Some (Inr (paths', s'))
                 \<longrightarrow> joint_map s' = joint_map s"
    by (auto dest: GetPartMeshPaths_joint_map)
  from ctor lenN names rt st1 st2 show ?thesis by blast
qed

lemma ex_movable:
  "movable_segments ex_tree =
     [\<lparr>segment = ex_seg ''l1'' ''j1'' TransAxis, q_nr = 0\<rparr>,
      \<lparr>segment = ex_seg ''l2'' ''j2'' TransAxis, q_nr = 1\<rparr>]"
  by (simp add: movable_segments_def ex_tree_def ex_seg_def)

lemma ex_joint_index:
  "tree_NrOfJoints ex_tree = length (movable_segments ex_tree) \<and>
   distinct (map q_nr (movable_segments ex_tree)) \<and>
   list_all (\<lambda>e. q_nr e < tree_NrOfJoints ex_tree) (movable_segments ex_tree) \<and>
   distinct (map (\<lambda>e. kj_name (seg_joint (segment e))) (movable_segments ex_tree)) \<and>
   list_all (urdf_has_joint ex_urdf) (movable_segments ex_tree) \<and>
   RobotState ex_lib ex_urdf ex_tree (True, ex_chain) ex_chain_solver ex_tree_solver
     = Inr ex_state \<and>
   joint_map ex_state = [''j1'', ''j2''] \<and>
   GetJointIndex ex_state (joint_map ex_state ! 0) = 0 \<and>
   GetJointIndex ex_state (joint_map ex_state ! 1) = 1"
proof -
  have h1: "tree_NrOfJoints ex_tree = length (movable_segments ex_tree)"
    by (simp add: ex_movable) (simp add: ex_tree_def)
  have h2: "distinct (map q_nr (movable_segments ex_tree))"
    by (simp add: ex_movable)
  have h3: "list_all (\<lambda>e. q_nr e < tree_NrOfJoints ex_tree) (movable_segments ex_tree)"
    by (simp add: ex_movable) (simp add: ex_tree_def)
  have h4: "distinct (map (\<lambda>e. kj_name (seg_joint (segment e))) (movable_segments ex_tree))"
    by (simp add: ex_movable ex_seg_def)
  have h5: "list_all (urdf_has_joint ex_urdf) (movable_segments ex_tree)"
    by (simp add: ex_movable urdf_has_joint_def ex_urdf_def ex_joint_def ex_seg_def)
  from joint_index_bijection_when_joints_have_limits
    [OF h1 h2 h3 [unfolded list_all_iff] h4 h5 [unfolded list_all_iff],
     of ex_lib "(True, ex_chain)" ex_chain_solver ex_tree_solver]
  obtain s where c: "RobotState ex_lib ex_urdf ex_tree (True, ex_chain) ex_chain_solver
                       ex_tree_solver = Inr s"
    and b: "\<forall>i<length (joint_map s). GetJointIndex s (joint_map s ! i) = int i"
    by blast
  from c have s: "s = ex_state" by (simp add: ex_ctor)
  have jm: "joint_map ex_state = [''j1'', ''j2'']" by (simp add: ex_state_def)
  from b [unfolded s, THEN spec, of 0] b [unfolded s, THEN spec, of 1] jm
  have "GetJointIndex ex_state (joint_map ex_state ! 0) = 0"
    and "GetJointIndex ex_state (joint_map ex_state ! 1) = 1"
    by simp_all
  with h1 h2 h3 h4 h5 ex_ctor jm show ?thesis by blast
qed

text \<open>
  Claim C8 at an input where the code departs from it. The description gives \<open>j1\<close> as a
  continuous joint without limits, a valid topology with two non-fixed joints. The
  constructor reaches \<^verbatim>\<open>joint->limits->lower\<close> (line 82) with a null \<^verbatim>\<open>limits\<close>
  pointer: construction ends in a null dereference and there is no joint index.
\<close>

theorem constructor_null_dereference_on_joint_without_limits:
  "map_option uj_type (getJoint ex_urdf_continuous ''j1'') = Some CONTINUOUS \<and>
   map_option limits (getJoint ex_urdf_continuous ''j1'') = Some None \<and>
   RobotState ex_lib ex_urdf_continuous ex_tree (True, ex_chain) ex_chain_solver ex_tree_solver
     = Inl NullDeref"
  by (simp add: RobotState_def ex_urdf_continuous_def ex_joint_continuous_def ex_urdf_def
       ex_tree_def ex_seg_def joint_index_step_def ex_lib_def numeral_2_eq_2)

end
